theory Spec2Isabelle
  imports Main "HOL-Library.Sublist"
begin

section \<open>Unicode text\<close>

text \<open>
  A Python \<open>str\<close> is a sequence of Unicode code points and \<open>len\<close> counts code points,
  so a string is a list of code points (natural numbers), not a list of bytes.
\<close>

type_synonym uchar = nat
type_synonym ustr = "uchar list"

section \<open>Text Normalizer\<close>

text \<open>
  \<^verbatim>\<open>re.sub(r'<[^>]+>', '', html)\<close>: a match starts at a \<open><\<close> (code 60), takes greedily
  one or more characters other than \<open>>\<close> (code 62) and must then read a \<open>>\<close>. The
  class \<open>[^>]\<close> stops exactly at the first \<open>>\<close>, so backtracking never finds another
  match: the tag matches iff the run of non-\<open>>\<close> characters is not empty and a \<open>>\<close>
  follows it. Matches are removed from left to right, unmatched characters are kept.
\<close>

function remove_html_tags :: "ustr \<Rightarrow> ustr" where
  "remove_html_tags [] = []"
| "remove_html_tags (c # cs) =
     (if c = 60 \<and> takeWhile (\<lambda>d. d \<noteq> 62) cs \<noteq> [] \<and> dropWhile (\<lambda>d. d \<noteq> 62) cs \<noteq> []
      then remove_html_tags (tl (dropWhile (\<lambda>d. d \<noteq> 62) cs))
      else c # remove_html_tags cs)"
  by pat_completeness auto
termination
  by (relation "measure length")
     (auto simp: less_Suc_eq_le intro: le_trans [OF diff_le_self length_dropWhile_le])

text \<open>The character classes of \<^verbatim>\<open>r'[A-Za-z0-9\s+]|[^\u4e00-\u9fa5]+'\<close>.\<close>

definition is_ascii_alnum :: "uchar \<Rightarrow> bool" where
  "is_ascii_alnum c \<longleftrightarrow> (65 \<le> c \<and> c \<le> 90) \<or> (97 \<le> c \<and> c \<le> 122) \<or> (48 \<le> c \<and> c \<le> 57)"

text \<open>\<^verbatim>\<open>\s\<close> in a \<open>str\<close> pattern: the Unicode whitespace characters.\<close>

definition is_whitespace :: "uchar \<Rightarrow> bool" where
  "is_whitespace c \<longleftrightarrow>
     (9 \<le> c \<and> c \<le> 13) \<or> (28 \<le> c \<and> c \<le> 32) \<or> c = 0x85 \<or> c = 0xA0 \<or> c = 0x1680 \<or>
     (0x2000 \<le> c \<and> c \<le> 0x200A) \<or> c = 0x2028 \<or> c = 0x2029 \<or> c = 0x202F \<or>
     c = 0x205F \<or> c = 0x3000"

text \<open>\<^verbatim>\<open>[A-Za-z0-9\s+]\<close>: inside the brackets \<open>+\<close> (code 43) is a literal character.\<close>

definition first_class :: "uchar \<Rightarrow> bool" where
  "first_class c \<longleftrightarrow> is_ascii_alnum c \<or> is_whitespace c \<or> c = 43"

text \<open>The complement of \<^verbatim>\<open>[^\u4e00-\u9fa5]\<close>.\<close>

definition is_cjk :: "uchar \<Rightarrow> bool" where
  "is_cjk c \<longleftrightarrow> 0x4E00 \<le> c \<and> c \<le> 0x9FA5"

text \<open>
  \<^verbatim>\<open>re.sub(r'[A-Za-z0-9\s+]|[^\u4e00-\u9fa5]+', '', text)\<close>: at each position the first
  alternative is tried first and consumes one character; otherwise the second consumes
  the longest run of characters outside the range; a character that starts no match is
  copied to the output.
\<close>

function remove_punctuation_and_english :: "ustr \<Rightarrow> ustr" where
  "remove_punctuation_and_english [] = []"
| "remove_punctuation_and_english (c # cs) =
     (if first_class c then remove_punctuation_and_english cs
      else if \<not> is_cjk c
        then remove_punctuation_and_english (dropWhile (\<lambda>d. \<not> is_cjk d) cs)
      else c # remove_punctuation_and_english cs)"
  by pat_completeness auto
termination
  by (relation "measure length") (auto simp: less_Suc_eq_le length_dropWhile_le)

section \<open>Frequency Ranker\<close>

text \<open>
  The list comprehension assigned to \<open>meaningful_words\<close>:
  \<^verbatim>\<open>[word for word in words if word not in stopwords and len(word) > 1]\<close>
\<close>

definition meaningful :: "ustr list \<Rightarrow> ustr set \<Rightarrow> ustr list" where
  "meaningful ws sw = filter (\<lambda>word. word \<notin> sw \<and> length word > 1) ws"

text \<open>
  A \<open>Counter\<close> is a \<open>dict\<close>: it keeps its keys in insertion order, and storing under a key
  that is present keeps the key's position. It is an association list here, since the
  order decides the ties of \<open>most_common\<close>. Counts are Python integers.
\<close>

type_synonym counter = "(ustr \<times> int) list"

text \<open>One step of \<open>Counter.update\<close>: \<^verbatim>\<open>self[elem] = self.get(elem, 0) + 1\<close>.\<close>

fun count_element :: "counter \<Rightarrow> ustr \<Rightarrow> counter" where
  "count_element [] elem = [(elem, 0 + 1)]"
| "count_element ((k, n) # kvs) elem =
     (if k = elem then (k, n + 1) # kvs else (k, n) # count_element kvs elem)"

definition Counter :: "ustr list \<Rightarrow> counter" where
  "Counter iterable = foldl count_element [] iterable"

text \<open>
  \<open>most_common(n)\<close> is \<^verbatim>\<open>heapq.nlargest(n, self.items(), key=itemgetter(1))\<close>, which is
  \<^verbatim>\<open>sorted(self.items(), key=itemgetter(1), reverse=True)[:n]\<close>: a stable sort by
  descending count, cut after \<open>n\<close> items.
\<close>

definition most_common :: "nat \<Rightarrow> counter \<Rightarrow> counter" where
  "most_common n c = take n (sort_key (\<lambda>kv. - snd kv) c)"

text \<open>Lines 78 to 80 of \<open>main\<close>, from the token sequence to the ranked result.\<close>

definition frequency_ranker :: "ustr list \<Rightarrow> ustr set \<Rightarrow> counter" where
  "frequency_ranker ws sw = most_common 20 (Counter (meaningful ws sw))"

text \<open>
  The same three assignments as a transformer of the local variables they read and
  write, so that a second run on the state the first one left can be stated.
\<close>

record ranker_locals =
  words :: "ustr list"
  stopwords :: "ustr set"
  meaningful_words :: "ustr list"
  word_counts :: counter
  most_common_words :: counter

definition run_ranker :: "ranker_locals \<Rightarrow> ranker_locals" where
  "run_ranker st =
     (let st1 = st\<lparr>meaningful_words := meaningful (words st) (stopwords st)\<rparr>;
          st2 = st1\<lparr>word_counts := Counter (meaningful_words st1)\<rparr>
      in st2\<lparr>most_common_words := most_common 20 (word_counts st2)\<rparr>)"

text \<open>
  The position at which a word first appears in a token sequence (the length of the
  sequence when it does not appear): the order that breaks ties.
\<close>

definition first_index :: "'a \<Rightarrow> 'a list \<Rightarrow> nat" where
  "first_index w ts = length (takeWhile (\<lambda>t. t \<noteq> w) ts)"

section \<open>Fetcher\<close>

datatype py_error = ConnectionError | HTTPError int | UnicodeDecodeError | RenderError

text \<open>
  The response of the server: its status code and its body, already decoded as UTF-8
  (\<^verbatim>\<open>response.encoding = 'utf-8'\<close>, \<^verbatim>\<open>response.text\<close>).
\<close>

record response =
  status_code :: int
  response_text :: ustr

text \<open>
  The network maps a well-formed address (\<open>main\<close> passes no other to the fetch) to the
  final response of a GET request to it, after the redirects that \<open>requests\<close> follows;
  an address with no entry is one to which no connection can be established, where
  \<open>requests.get\<close> raises \<open>ConnectionError\<close>.
\<close>

type_synonym network = "ustr \<rightharpoonup> response"

definition requests_get :: "network \<Rightarrow> ustr \<Rightarrow> py_error + response" where
  "requests_get net address =
     (case net address of None \<Rightarrow> Inl ConnectionError | Some r \<Rightarrow> Inr r)"

text \<open>
  \<open>Response.raise_for_status\<close> of the \<open>requests\<close> library raises \<open>HTTPError\<close> for a
  client error (400 to 499) and for a server error (500 to 599), and for no other status.
\<close>

definition raise_for_status :: "response \<Rightarrow> py_error + unit" where
  "raise_for_status r =
     (if 400 \<le> status_code r \<and> status_code r < 500 then Inl (HTTPError (status_code r))
      else if 500 \<le> status_code r \<and> status_code r < 600 then Inl (HTTPError (status_code r))
      else Inr ())"

definition fetch_content :: "network \<Rightarrow> ustr \<Rightarrow> py_error + ustr" where
  "fetch_content net address =
     (case requests_get net address of
        Inl e \<Rightarrow> Inl e
      | Inr r \<Rightarrow>
          (case raise_for_status r of
             Inl e \<Rightarrow> Inl e
           | Inr _ \<Rightarrow> Inr (response_text r)))"

section \<open>The interactive run\<close>

text \<open>\<open>str.splitlines\<close>: the line boundaries of Python, \<open>\r\n\<close> counting as one.\<close>

definition is_linebreak :: "uchar \<Rightarrow> bool" where
  "is_linebreak c \<longleftrightarrow>
     (10 \<le> c \<and> c \<le> 13) \<or> (28 \<le> c \<and> c \<le> 30) \<or> c = 0x85 \<or> c = 0x2028 \<or> c = 0x2029"

fun splitlines_from :: "ustr \<Rightarrow> ustr \<Rightarrow> ustr list" where
  "splitlines_from line [] = (if line = [] then [] else [line])"
| "splitlines_from line [c] = (if is_linebreak c then [line] else [line @ [c]])"
| "splitlines_from line (c # d # cs) =
     (if c = 13 \<and> d = 10 then line # splitlines_from [] cs
      else if is_linebreak c then line # splitlines_from [] (d # cs)
      else splitlines_from (line @ [c]) (d # cs))"

definition splitlines :: "ustr \<Rightarrow> ustr list" where
  "splitlines s = splitlines_from [] s"

text \<open>The seven chart types of the select box, in its order.\<close>

datatype chart = Bar | Pie | Line | Area | Scatter | Box | Cloud

text \<open>What the user entered in the side bar, and whether the button was pressed.\<close>

record ui_input =
  stopwords_file :: "nat list option"
  url :: ustr
  chart_type :: chart
  button :: bool

text \<open>
  The collaborators of \<open>main\<close> that are not part of this repository: the URL validator,
  the UTF-8 decoder (\<open>None\<close> when the bytes are not UTF-8), the network, the segmenter
  and the chart renderer (\<open>Some e\<close> when drawing raises \<open>e\<close>).
\<close>

record world =
  validators_url :: "ustr \<Rightarrow> bool"
  utf8_decode :: "nat list \<Rightarrow> ustr option"
  net :: network
  jieba_lcut :: "ustr \<Rightarrow> ustr list"
  render_chart :: "chart \<Rightarrow> counter \<Rightarrow> counter \<Rightarrow> py_error option"

text \<open>
  What a run of \<open>main\<close> does that can be observed, in order: the messages and tables it
  shows, the request it sends, and an exception that leaves \<open>main\<close>.
\<close>

datatype event =
    Error_invalid_url
  | Error_no_stopwords
  | Error_exception py_error
  | Http_get ustr
  | Write_text ustr
  | Dataframe counter
  | Pyplot chart
  | Uncaught py_error

text \<open>The body of the \<open>try\<close> block after a successful fetch.\<close>

definition analyse :: "world \<Rightarrow> ui_input \<Rightarrow> ustr set \<Rightarrow> ustr \<Rightarrow> event list" where
  "analyse w inp sw html =
     (let clean_text = remove_punctuation_and_english (remove_html_tags html);
          ws = jieba_lcut w clean_text;
          mw = meaningful ws sw;
          wc = Counter mw;
          mc = most_common 20 wc
      in [Write_text clean_text, Dataframe mc] @
         (case render_chart w (chart_type inp) mc wc of
            None \<Rightarrow> [Pyplot (chart_type inp)]
          | Some e \<Rightarrow> [Error_exception e]))"

definition main :: "world \<Rightarrow> ui_input \<Rightarrow> event list" where
  "main w inp =
     (if \<not> button inp then []
      else if \<not> validators_url w (url inp) then [Error_invalid_url]
      else
        (case stopwords_file inp of
           None \<Rightarrow> [Error_no_stopwords]
         | Some bytes \<Rightarrow>
             (case utf8_decode w bytes of
                None \<Rightarrow> [Uncaught UnicodeDecodeError]
              | Some decoded \<Rightarrow>
                  Http_get (url inp) #
                  (case fetch_content (net w) (url inp) of
                     Inl e \<Rightarrow> [Error_exception e]
                   | Inr html \<Rightarrow> analyse w inp (set (splitlines decoded)) html))))"

section \<open>Properties of the Text Normalizer\<close>

lemma filter_dropWhile_not: "filter P (dropWhile (\<lambda>x. \<not> P x) xs) = filter P xs"
  by (induction xs) auto

lemma first_class_not_cjk: "first_class c \<Longrightarrow> \<not> is_cjk c"
  by (auto simp: first_class_def is_cjk_def is_ascii_alnum_def is_whitespace_def)

text \<open>The two alternatives of the pattern together delete exactly the characters outside the range.\<close>

lemma remove_punctuation_and_english_filter:
  "remove_punctuation_and_english s = filter is_cjk s"
  by (induction s rule: remove_punctuation_and_english.induct)
     (auto simp: filter_dropWhile_not first_class_not_cjk)

text \<open>
  C3: every character of the output of the character filter lies in U+4E00 to U+9FA5;
  it is no ASCII letter or digit, no whitespace and no ASCII character at all (so no
  ASCII punctuation), whatever the input string is.
\<close>

theorem normalizer_output_cjk_only:
  "c \<in> set (remove_punctuation_and_english s) \<Longrightarrow>
   0x4E00 \<le> c \<and> c \<le> 0x9FA5 \<and> \<not> is_ascii_alnum c \<and> \<not> is_whitespace c \<and> 128 \<le> c"
  by (auto simp: remove_punctuation_and_english_filter is_cjk_def is_ascii_alnum_def
        is_whitespace_def)

theorem normalizer_output_cjk_only_witness:
  "0x82F9 \<in> set (remove_punctuation_and_english [65, 0x82F9, 32, 0x3002, 0x679C, 43, 10]) \<and>
   (0x4E00::nat) \<le> 0x82F9 \<and> (0x82F9::nat) \<le> 0x9FA5 \<and> \<not> is_ascii_alnum 0x82F9 \<and>
   \<not> is_whitespace 0x82F9 \<and> (128::nat) \<le> 0x82F9"
proof -
  have h: "0x82F9 \<in> set (remove_punctuation_and_english [65, 0x82F9, 32, 0x3002, 0x679C, 43, 10])"
    by (simp add: first_class_def is_cjk_def is_ascii_alnum_def is_whitespace_def)
  show ?thesis using h normalizer_output_cjk_only [OF h] by simp
qed

text \<open>
  C9: the character filter is idempotent: applied to its own output it returns that
  output unchanged.
\<close>

theorem normalizer_idempotent:
  "remove_punctuation_and_english (remove_punctuation_and_english s) =
   remove_punctuation_and_english s"
  by (simp add: remove_punctuation_and_english_filter)

section \<open>Properties of the Frequency Ranker\<close>

subsection \<open>The counter\<close>

lemma keys_count_element:
  "map fst (count_element c w) = (if w \<in> fst ` set c then map fst c else map fst c @ [w])"
  by (induction c w rule: count_element.induct) (auto simp: image_iff)

lemma Counter_snoc: "Counter (ts @ [w]) = count_element (Counter ts) w"
  by (simp add: Counter_def)

lemma keys_Counter: "fst ` set (Counter ts) = set ts"
proof (induction ts rule: rev_induct)
  case Nil
  show ?case by (simp add: Counter_def)
next
  case (snoc w ts)
  have "set (map fst (Counter (ts @ [w]))) = set (ts @ [w])"
    unfolding Counter_snoc keys_count_element using snoc by auto
  then show ?case by simp
qed

lemma count_element_positive:
  "\<forall>kv\<in>set c. 1 \<le> snd kv \<Longrightarrow> \<forall>kv\<in>set (count_element c w). 1 \<le> snd kv"
  by (induction c w rule: count_element.induct) auto

lemma Counter_positive: "\<forall>kv\<in>set (Counter ts). 1 \<le> snd kv"
proof (induction ts rule: rev_induct)
  case Nil
  show ?case by (simp add: Counter_def)
next
  case (snoc w ts)
  then show ?case unfolding Counter_snoc by (rule count_element_positive)
qed

lemma sum_count_element: "sum_list (map snd (count_element c w)) = sum_list (map snd c) + 1"
  by (induction c w rule: count_element.induct) auto

lemma sum_Counter: "sum_list (map snd (Counter ts)) = int (length ts)"
  by (induction ts rule: rev_induct) (simp_all add: Counter_def sum_count_element)

subsection \<open>First occurrences\<close>

lemma first_index_less: "w \<in> set ts \<Longrightarrow> first_index w ts < length ts"
  unfolding first_index_def by (induction ts) auto

lemma first_index_append_in: "w \<in> set ts \<Longrightarrow> first_index w (ts @ vs) = first_index w ts"
  unfolding first_index_def by (induction ts) auto

lemma first_index_append_notin:
  "w \<notin> set ts \<Longrightarrow> first_index w (ts @ vs) = length ts + first_index w vs"
  unfolding first_index_def by (induction ts) auto

text \<open>A filter that decides on the word alone keeps the order of first occurrences.\<close>

lemma first_index_filter:
  "P u \<Longrightarrow> P v \<Longrightarrow>
   first_index u (filter P ts) < first_index v (filter P ts) \<longleftrightarrow>
   first_index u ts < first_index v ts"
  unfolding first_index_def by (induction ts) auto

text \<open>The keys of a counter stand in the order in which they were first counted.\<close>

lemma keys_Counter_first_seen:
  "sorted_wrt (\<lambda>a b. first_index a ts < first_index b ts) (map fst (Counter ts))"
proof (induction ts rule: rev_induct)
  case Nil
  show ?case by (simp add: Counter_def)
next
  case (snoc w ts)
  let ?ks = "map fst (Counter ts)"
  have ks: "set ?ks = set ts" using keys_Counter [of ts] by simp
  have old: "sorted_wrt (\<lambda>a b. first_index a (ts @ [w]) < first_index b (ts @ [w])) ?ks"
    by (rule sorted_wrt_mono_rel [OF _ snoc])
       (simp add: keys_Counter first_index_append_in)
  show ?case
  proof (cases "w \<in> set ts")
    case True
    then show ?thesis
      unfolding Counter_snoc keys_count_element using old keys_Counter [of ts] by simp
  next
    case False
    have "\<forall>a\<in>set ?ks. first_index a (ts @ [w]) < first_index w (ts @ [w])"
      using ks False
      by (auto simp: first_index_append_in first_index_append_notin
            intro: trans_less_add1 [OF first_index_less])
    then show ?thesis
      unfolding Counter_snoc keys_count_element using old keys_Counter [of ts] False
      by (simp add: sorted_wrt_append)
  qed
qed

subsection \<open>The stable sort\<close>

lemma insort_key_tie:
  assumes "sorted_wrt (\<lambda>a b. f a < f b \<or> (f a = f b \<and> P a b)) ys"
    and "\<forall>y\<in>set ys. P x y"
  shows "sorted_wrt (\<lambda>a b. f a < f b \<or> (f a = f b \<and> P a b)) (insort_key f x ys)"
  using assms
proof (induction ys)
  case Nil
  then show ?case by simp
next
  case (Cons y ys)
  show ?case
  proof (cases "f x \<le> f y")
    case True
    have "\<forall>z\<in>set (y # ys). f x < f z \<or> (f x = f z \<and> P x z)"
      using True Cons.prems by fastforce
    then show ?thesis using True Cons.prems(1) by simp
  next
    case False
    then show ?thesis using Cons by (auto simp: set_insort_key)
  qed
qed

text \<open>Sorting by a key orders equal keys as the input had them.\<close>

lemma sort_key_tie:
  "sorted_wrt P xs \<Longrightarrow>
   sorted_wrt (\<lambda>a b. f a < f b \<or> (f a = f b \<and> P a b)) (sort_key f xs)"
proof (induction xs)
  case Nil
  show ?case by simp
next
  case (Cons x xs)
  then show ?case by (simp add: insort_key_tie)
qed

lemma ranker_sorted_tie:
  "sorted_wrt (\<lambda>a b. snd b < snd a \<or>
      (snd a = snd b \<and> first_index (fst a) ts < first_index (fst b) ts))
     (frequency_ranker ts sw)"
proof -
  let ?P = "\<lambda>w. w \<notin> sw \<and> length w > 1"
  let ?mw = "meaningful ts sw"
  have mw: "?mw = filter ?P ts" by (simp add: meaningful_def)
  have keys: "fst ` set (Counter ?mw) = set ?mw" by (rule keys_Counter)
  have "sorted_wrt (\<lambda>a b. first_index (fst a) ?mw < first_index (fst b) ?mw) (Counter ?mw)"
    using keys_Counter_first_seen [of ?mw] by (simp add: sorted_wrt_map)
  then have "sorted_wrt (\<lambda>a b. first_index (fst a) ts < first_index (fst b) ts) (Counter ?mw)"
  proof (rule sorted_wrt_mono_rel [rotated])
    fix a b
    assume a: "a \<in> set (Counter ?mw)" and b: "b \<in> set (Counter ?mw)"
      and lt: "first_index (fst a) ?mw < first_index (fst b) ?mw"
    have "fst a \<in> set ?mw" "fst b \<in> set ?mw" using a b keys by blast+
    then have "?P (fst a)" "?P (fst b)" by (simp_all add: mw)
    then show "first_index (fst a) ts < first_index (fst b) ts"
      using lt first_index_filter [of ?P "fst a" "fst b" ts] by (simp add: mw)
  qed
  then have "sorted_wrt (\<lambda>a b. - snd a < - snd b \<or>
      (- snd a = - snd b \<and> first_index (fst a) ts < first_index (fst b) ts))
     (sort_key (\<lambda>kv. - snd kv) (Counter ?mw))"
    by (rule sort_key_tie)
  then show ?thesis
    by (simp add: frequency_ranker_def most_common_def)
qed

lemma ranker_subset: "set (frequency_ranker ts sw) \<subseteq> set (Counter (meaningful ts sw))"
  using set_take_subset [of 20 "sort_key (\<lambda>kv. - snd kv) (Counter (meaningful ts sw))"]
  by (simp add: frequency_ranker_def most_common_def)

subsection \<open>The claims\<close>

text \<open>
  C1: for every token sequence and stopword set the ranked result has at most 20
  records, its counts descend, and of two adjacent records with the same count the one
  whose word first appears earlier in the token sequence stands first.
\<close>

theorem ranked_result_order:
  "length (frequency_ranker ts sw) \<le> 20 \<and>
   sorted_wrt (\<lambda>a b. snd b \<le> snd a) (frequency_ranker ts sw) \<and>
   (\<forall>i. Suc i < length (frequency_ranker ts sw) \<and>
        snd (frequency_ranker ts sw ! i) = snd (frequency_ranker ts sw ! Suc i) \<longrightarrow>
        first_index (fst (frequency_ranker ts sw ! i)) ts
          < first_index (fst (frequency_ranker ts sw ! Suc i)) ts)"
proof (intro conjI allI impI)
  show "length (frequency_ranker ts sw) \<le> 20"
    by (simp add: frequency_ranker_def most_common_def)
  show "sorted_wrt (\<lambda>a b. snd b \<le> snd a) (frequency_ranker ts sw)"
    by (rule sorted_wrt_mono_rel [OF _ ranker_sorted_tie [of ts sw]]) auto
next
  fix i
  let ?r = "frequency_ranker ts sw"
  assume h: "Suc i < length ?r \<and> snd (?r ! i) = snd (?r ! Suc i)"
  then have "snd (?r ! Suc i) < snd (?r ! i) \<or>
      (snd (?r ! i) = snd (?r ! Suc i) \<and>
       first_index (fst (?r ! i)) ts < first_index (fst (?r ! Suc i)) ts)"
    using sorted_wrt_nth_less [OF ranker_sorted_tie [of ts sw], of i "Suc i"] by simp
  with h show "first_index (fst (?r ! i)) ts < first_index (fst (?r ! Suc i)) ts"
    by simp
qed

theorem ranked_result_order_witness:
  "length (frequency_ranker [[0x9999, 0x8549], [0x6A59, 0x5B50], [0x6A59, 0x5B50], [0x9999, 0x8549]] {}) \<le> 20 \<and>
   frequency_ranker [[0x9999, 0x8549], [0x6A59, 0x5B50], [0x6A59, 0x5B50], [0x9999, 0x8549]] {}
     = [([0x9999, 0x8549], 2), ([0x6A59, 0x5B50], 2)] \<and>
   first_index [0x9999, 0x8549] [[0x9999, 0x8549], [0x6A59, 0x5B50], [0x6A59, 0x5B50], [0x9999, 0x8549 :: nat]]
     < first_index [0x6A59, 0x5B50] [[0x9999, 0x8549], [0x6A59, 0x5B50], [0x6A59, 0x5B50], [0x9999, 0x8549 :: nat]]"
proof -
  let ?ts = "[[0x9999, 0x8549], [0x6A59, 0x5B50], [0x6A59, 0x5B50], [0x9999, 0x8549 :: nat]]"
  have r: "frequency_ranker ?ts {} = [([0x9999, 0x8549], 2), ([0x6A59, 0x5B50], 2)]"
    by (simp add: frequency_ranker_def most_common_def Counter_def meaningful_def)
  have "Suc 0 < length (frequency_ranker ?ts {}) \<and>
        snd (frequency_ranker ?ts {} ! 0) = snd (frequency_ranker ?ts {} ! Suc 0)"
    by (simp add: r)
  then have "first_index (fst (frequency_ranker ?ts {} ! 0)) ?ts
      < first_index (fst (frequency_ranker ?ts {} ! Suc 0)) ?ts"
    using ranked_result_order [of ?ts "{}"] by blast
  then show ?thesis by (simp add: r)
qed

text \<open>
  C2: for every stopword set and token sequence, the word of every record of the
  ranked result is not a stopword and is longer than one character.
\<close>

theorem record_word_meaningful:
  "kv \<in> set (frequency_ranker ts sw) \<Longrightarrow> fst kv \<notin> sw \<and> 1 < length (fst kv)"
proof -
  assume "kv \<in> set (frequency_ranker ts sw)"
  then have "kv \<in> set (Counter (meaningful ts sw))" using ranker_subset by blast
  then have "fst kv \<in> set (meaningful ts sw)" using keys_Counter [of "meaningful ts sw"] by blast
  then show ?thesis by (simp add: meaningful_def)
qed

theorem record_word_meaningful_witness:
  "([0x9999, 0x8549], 2) \<in> set (frequency_ranker
      [[0x82F9, 0x679C], [0x9999, 0x8549], [0x7684], [0x82F9, 0x679C], [0x9999, 0x8549]]
      {[0x82F9, 0x679C]}) \<and>
   [0x9999, 0x8549] \<notin> {[0x82F9, 0x679C :: nat]} \<and> 1 < length [0x9999, 0x8549 :: nat]"
proof -
  have h: "([0x9999, 0x8549], 2) \<in> set (frequency_ranker
      [[0x82F9, 0x679C], [0x9999, 0x8549], [0x7684], [0x82F9, 0x679C], [0x9999, 0x8549]]
      {[0x82F9, 0x679C]})"
    by (simp add: frequency_ranker_def most_common_def Counter_def meaningful_def)
  show ?thesis using h record_word_meaningful [OF h] by simp
qed

text \<open>
  C6: on the six tokens of the scenario (the words U+82F9 U+679C, U+9999 U+8549 and
  U+6A59 U+5B50) the ranker returns the three records with counts 3, 2 and 1 for the
  empty stopword set, and the last two of them when the first word is a stopword.
\<close>

theorem ranker_scenario:
  "frequency_ranker
     [[0x82F9, 0x679C], [0x9999, 0x8549], [0x82F9, 0x679C], [0x6A59, 0x5B50],
      [0x82F9, 0x679C], [0x9999, 0x8549]] {}
     = [([0x82F9, 0x679C], 3), ([0x9999, 0x8549], 2), ([0x6A59, 0x5B50], 1)] \<and>
   frequency_ranker
     [[0x82F9, 0x679C], [0x9999, 0x8549], [0x82F9, 0x679C], [0x6A59, 0x5B50],
      [0x82F9, 0x679C], [0x9999, 0x8549]] {[0x82F9, 0x679C]}
     = [([0x9999, 0x8549], 2), ([0x6A59, 0x5B50], 1)]"
  by (simp add: frequency_ranker_def most_common_def Counter_def meaningful_def)

text \<open>
  C7: the ranker returns the empty result for the empty token sequence, and also when
  every token is a stopword or has at most one character. The result is an ordinary
  value: the three statements of the ranker have no failing case.
\<close>

theorem ranker_empty_result:
  "frequency_ranker [] sw = [] \<and>
   ((\<forall>t\<in>set ts. t \<in> sw \<or> length t \<le> 1) \<longrightarrow> frequency_ranker ts sw = [])"
proof (intro conjI impI)
  show "frequency_ranker [] sw = []"
    by (simp add: frequency_ranker_def most_common_def Counter_def meaningful_def)
next
  assume "\<forall>t\<in>set ts. t \<in> sw \<or> length t \<le> 1"
  then have "meaningful ts sw = []"
    by (auto simp: meaningful_def filter_empty_conv)
  then show "frequency_ranker ts sw = []"
    by (simp add: frequency_ranker_def most_common_def Counter_def)
qed

theorem ranker_empty_result_witness:
  "list_all (\<lambda>t. t \<in> {[0x82F9, 0x679C]} \<or> length t \<le> 1) [[0x82F9, 0x679C], [0x7684 :: nat]] \<and>
   frequency_ranker [[0x82F9, 0x679C], [0x7684]] {[0x82F9, 0x679C]} = []"
proof -
  have h: "\<forall>t\<in>set [[0x82F9, 0x679C], [0x7684 :: nat]]. t \<in> {[0x82F9, 0x679C]} \<or> length t \<le> 1"
    by simp
  show ?thesis using h ranker_empty_result [of "{[0x82F9, 0x679C]}" "[[0x82F9, 0x679C], [0x7684]]"]
    by simp
qed

text \<open>
  C8: the ranker is deterministic. Its result depends on the token sequence and the
  stopword set alone, whatever the other local variables hold; a run leaves both
  unchanged, so a second run on the state the first one left yields the same result.
\<close>

theorem ranker_deterministic:
  "words st' = words st \<and> stopwords st' = stopwords st \<longrightarrow>
     most_common_words (run_ranker st') = most_common_words (run_ranker st) \<and>
     most_common_words (run_ranker st) = frequency_ranker (words st) (stopwords st) \<and>
     words (run_ranker st) = words st \<and> stopwords (run_ranker st) = stopwords st \<and>
     most_common_words (run_ranker (run_ranker st)) = most_common_words (run_ranker st)"
  by (simp add: run_ranker_def frequency_ranker_def Let_def)

theorem ranker_deterministic_witness:
  "most_common_words (run_ranker
      \<lparr>words = [[0x82F9, 0x679C], [0x7684], [0x82F9, 0x679C]], stopwords = {},
       meaningful_words = [[1, 2]], word_counts = [([1, 2], 5)],
       most_common_words = [([1, 2], 5)]\<rparr>)
   = most_common_words (run_ranker
      \<lparr>words = [[0x82F9, 0x679C], [0x7684], [0x82F9, 0x679C]], stopwords = {},
       meaningful_words = [], word_counts = [], most_common_words = []\<rparr>) \<and>
   most_common_words (run_ranker
      \<lparr>words = [[0x82F9, 0x679C], [0x7684], [0x82F9, 0x679C]], stopwords = {},
       meaningful_words = [], word_counts = [], most_common_words = []\<rparr>)
   = [([0x82F9, 0x679C], 2)]"
  using ranker_deterministic
    [of "\<lparr>words = [[0x82F9, 0x679C], [0x7684], [0x82F9, 0x679C]], stopwords = {},
          meaningful_words = [[1, 2]], word_counts = [([1, 2], 5)],
          most_common_words = [([1, 2], 5)]\<rparr>"
        "\<lparr>words = [[0x82F9, 0x679C], [0x7684], [0x82F9, 0x679C]], stopwords = {},
          meaningful_words = [], word_counts = [], most_common_words = []\<rparr>"]
  by (simp add: frequency_ranker_def most_common_def Counter_def meaningful_def)

text \<open>
  C10: the tokens that survive the filter are a subsequence of the token sequence,
  every count of the full count mapping is at least 1, and the counts add up to the
  number of surviving tokens.
\<close>

theorem counting_invariants:
  "subseq (meaningful ts sw) ts \<and>
   (\<forall>kv\<in>set (Counter (meaningful ts sw)). 1 \<le> snd kv) \<and>
   sum_list (map snd (Counter (meaningful ts sw))) = int (length (meaningful ts sw))"
proof (intro conjI)
  show "subseq (meaningful ts sw) ts" by (simp add: meaningful_def)
  show "\<forall>kv\<in>set (Counter (meaningful ts sw)). 1 \<le> snd kv" by (rule Counter_positive)
  show "sum_list (map snd (Counter (meaningful ts sw))) = int (length (meaningful ts sw))"
    by (rule sum_Counter)
qed

theorem counting_invariants_witness:
  "meaningful [[0x82F9, 0x679C], [0x7684], [0x9999, 0x8549], [0x82F9, 0x679C]] {[0x9999, 0x8549]}
     = [[0x82F9, 0x679C], [0x82F9, 0x679C]] \<and>
   subseq [[0x82F9, 0x679C], [0x82F9, 0x679C]]
     [[0x82F9, 0x679C], [0x7684], [0x9999, 0x8549], [0x82F9, 0x679C :: nat]] \<and>
   Counter [[0x82F9, 0x679C], [0x82F9, 0x679C]] = [([0x82F9, 0x679C], 2)] \<and>
   (1::int) \<le> snd ([0x82F9, 0x679C :: nat], 2 :: int)"
proof -
  let ?ts = "[[0x82F9, 0x679C], [0x7684], [0x9999, 0x8549], [0x82F9, 0x679C :: nat]]"
  have m: "meaningful ?ts {[0x9999, 0x8549]} = [[0x82F9, 0x679C], [0x82F9, 0x679C]]"
    by (simp add: meaningful_def)
  have c: "Counter [[0x82F9, 0x679C], [0x82F9, 0x679C :: nat]] = [([0x82F9, 0x679C], 2)]"
    by (simp add: Counter_def)
  have "([0x82F9, 0x679C], 2) \<in> set (Counter (meaningful ?ts {[0x9999, 0x8549]}))"
    by (simp add: m c)
  then have "(1::int) \<le> snd ([0x82F9, 0x679C :: nat], 2 :: int)"
    using counting_invariants [of ?ts "{[0x9999, 0x8549]}"] by blast
  moreover have "subseq [[0x82F9, 0x679C], [0x82F9, 0x679C]] ?ts"
    using counting_invariants [of ?ts "{[0x9999, 0x8549]}"] by (simp add: m)
  ultimately show ?thesis by (simp add: m c)
qed

section \<open>Properties of the run\<close>

lemma fetch_content_cases:
  "fetch_content nw a =
     (case nw a of
        None \<Rightarrow> Inl ConnectionError
      | Some r \<Rightarrow>
          if 400 \<le> status_code r \<and> status_code r < 600 then Inl (HTTPError (status_code r))
          else Inr (response_text r))"
  by (auto simp: fetch_content_def requests_get_def raise_for_status_def split: option.splits)

text \<open>
  C4, as the code has it: when no connection can be established, or the status of the
  response is a client or server error (400 to 599, for example 404), the Fetcher
  raises a network error, \<open>ConnectionError\<close> in the first case and \<open>HTTPError\<close> with the
  status in the second; a run that reached the fetch then sends the request, shows that
  exception and nothing else, so no text is normalized and no frequency record is
  produced.
\<close>

theorem fetch_failure_aborts:
  assumes "net w (url inp) = None \<or>
           (\<exists>r. net w (url inp) = Some r \<and> 400 \<le> status_code r \<and> status_code r < 600)"
  shows "fetch_content (net w) (url inp) =
           Inl (case net w (url inp) of
                  None \<Rightarrow> ConnectionError
                | Some r \<Rightarrow> HTTPError (status_code r)) \<and>
         (button inp \<and> validators_url w (url inp) \<and>
          (\<exists>b d. stopwords_file inp = Some b \<and> utf8_decode w b = Some d) \<longrightarrow>
          main w inp =
            [Http_get (url inp),
             Error_exception (case net w (url inp) of
                                None \<Rightarrow> ConnectionError
                              | Some r \<Rightarrow> HTTPError (status_code r))])"
proof -
  let ?e = "case net w (url inp) of None \<Rightarrow> ConnectionError
            | Some r \<Rightarrow> HTTPError (status_code r)"
  from assms have e: "fetch_content (net w) (url inp) = Inl ?e"
    by (auto simp: fetch_content_cases)
  then have "button inp \<and> validators_url w (url inp) \<and>
      (\<exists>b d. stopwords_file inp = Some b \<and> utf8_decode w b = Some d) \<longrightarrow>
      main w inp = [Http_get (url inp), Error_exception ?e]"
    by (auto simp: main_def)
  with e show ?thesis by blast
qed

theorem fetch_failure_aborts_witness:
  "main \<lparr>validators_url = (\<lambda>u. take 7 u = [104, 116, 116, 112, 58, 47, 47]),
         utf8_decode = (\<lambda>b. Some b), net = [[104, 116, 116, 112, 58, 47, 47, 97, 46, 99, 110, 47] \<mapsto>
           \<lparr>status_code = 404, response_text = [0x82F9, 0x679C]\<rparr>],
         jieba_lcut = (\<lambda>s. [s]), render_chart = (\<lambda>c r f. None)\<rparr>
        \<lparr>stopwords_file = Some [], url = [104, 116, 116, 112, 58, 47, 47, 97, 46, 99, 110, 47],
         chart_type = Bar, button = True\<rparr>
     = [Http_get [104, 116, 116, 112, 58, 47, 47, 97, 46, 99, 110, 47],
        Error_exception (HTTPError 404)] \<and>
   main \<lparr>validators_url = (\<lambda>u. take 7 u = [104, 116, 116, 112, 58, 47, 47]),
         utf8_decode = (\<lambda>b. Some b), net = Map.empty,
         jieba_lcut = (\<lambda>s. [s]), render_chart = (\<lambda>c r f. None)\<rparr>
        \<lparr>stopwords_file = Some [], url = [104, 116, 116, 112, 58, 47, 47, 97, 46, 99, 110, 47],
         chart_type = Bar, button = True\<rparr>
     = [Http_get [104, 116, 116, 112, 58, 47, 47, 97, 46, 99, 110, 47],
        Error_exception ConnectionError]"
  using fetch_failure_aborts
    [of "\<lparr>validators_url = (\<lambda>u. take 7 u = [104, 116, 116, 112, 58, 47, 47]),
         utf8_decode = (\<lambda>b. Some b), net = [[104, 116, 116, 112, 58, 47, 47, 97, 46, 99, 110, 47] \<mapsto>
           \<lparr>status_code = 404, response_text = [0x82F9, 0x679C]\<rparr>],
         jieba_lcut = (\<lambda>s. [s]), render_chart = (\<lambda>c r f. None)\<rparr>"
        "\<lparr>stopwords_file = Some [], url = [104, 116, 116, 112, 58, 47, 47, 97, 46, 99, 110, 47],
         chart_type = Bar, button = True\<rparr>"]
    fetch_failure_aborts
    [of "\<lparr>validators_url = (\<lambda>u. take 7 u = [104, 116, 116, 112, 58, 47, 47]),
         utf8_decode = (\<lambda>b. Some b), net = Map.empty,
         jieba_lcut = (\<lambda>s. [s]), render_chart = (\<lambda>c r f. None)\<rparr>"
        "\<lparr>stopwords_file = Some [], url = [104, 116, 116, 112, 58, 47, 47, 97, 46, 99, 110, 47],
         chart_type = Bar, button = True\<rparr>"]
  by simp

text \<open>
  The claim as the specification states it fails: the address \<open>http://a.cn/\<close> answers
  with the final status 300 (not a 2xx status, and no redirect that \<open>requests\<close> follows)
  and a body, and the Fetcher returns that body instead of raising.
\<close>

theorem fetch_non_2xx_counterexample:
  "fetch_content
     [[104, 116, 116, 112, 58, 47, 47, 97, 46, 99, 110, 47] \<mapsto>
        \<lparr>status_code = 300,
         response_text = [60, 112, 62, 0x82F9, 0x679C, 60, 47, 112, 62]\<rparr>]
     [104, 116, 116, 112, 58, 47, 47, 97, 46, 99, 110, 47]
   = Inr [60, 112, 62, 0x82F9, 0x679C, 60, 47, 112, 62]"
  by (simp add: fetch_content_cases)

text \<open>
  C5: when the URL is not valid or no stopword file was uploaded, a run shows the
  error message for that input and does nothing else: it sends no request, and shows
  no normalized text and no ranking.
\<close>

theorem invalid_input_no_processing:
  assumes "button inp"
    and "\<not> validators_url w (url inp) \<or> stopwords_file inp = None"
  shows "main w inp =
           (if \<not> validators_url w (url inp) then [Error_invalid_url] else [Error_no_stopwords]) \<and>
         Http_get (url inp) \<notin> set (main w inp)"
  using assms by (auto simp: main_def)

theorem invalid_input_no_processing_witness:
  "main \<lparr>validators_url = (\<lambda>u. u \<noteq> []), utf8_decode = (\<lambda>b. Some b),
         net = [[104, 116, 116, 112] \<mapsto> \<lparr>status_code = 200, response_text = [0x82F9, 0x679C]\<rparr>],
         jieba_lcut = (\<lambda>s. [s]), render_chart = (\<lambda>c r f. None)\<rparr>
        \<lparr>stopwords_file = Some [], url = [], chart_type = Bar, button = True\<rparr>
     = [Error_invalid_url] \<and>
   main \<lparr>validators_url = (\<lambda>u. u \<noteq> []), utf8_decode = (\<lambda>b. Some b),
         net = [[104, 116, 116, 112] \<mapsto> \<lparr>status_code = 200, response_text = [0x82F9, 0x679C]\<rparr>],
         jieba_lcut = (\<lambda>s. [s]), render_chart = (\<lambda>c r f. None)\<rparr>
        \<lparr>stopwords_file = None, url = [104, 116, 116, 112], chart_type = Bar, button = True\<rparr>
     = [Error_no_stopwords]"
  using invalid_input_no_processing
    [of "\<lparr>stopwords_file = Some [], url = [], chart_type = Bar, button = True\<rparr>"
        "\<lparr>validators_url = (\<lambda>u. u \<noteq> []), utf8_decode = (\<lambda>b. Some b),
         net = [[104, 116, 116, 112] \<mapsto> \<lparr>status_code = 200, response_text = [0x82F9, 0x679C]\<rparr>],
         jieba_lcut = (\<lambda>s. [s]), render_chart = (\<lambda>c r f. None)\<rparr>"]
    invalid_input_no_processing
    [of "\<lparr>stopwords_file = None, url = [104, 116, 116, 112], chart_type = Bar, button = True\<rparr>"
        "\<lparr>validators_url = (\<lambda>u. u \<noteq> []), utf8_decode = (\<lambda>b. Some b),
         net = [[104, 116, 116, 112] \<mapsto> \<lparr>status_code = 200, response_text = [0x82F9, 0x679C]\<rparr>],
         jieba_lcut = (\<lambda>s. [s]), render_chart = (\<lambda>c r f. None)\<rparr>"]
  by simp

end
